theory Spec2Isabelle
  imports Main "HOL-Library.Sublist" "HOL-Library.Word"
begin

section \<open>Python values, exceptions and string operations\<close>

text \<open>
  An exception that a call can raise, with the text \<open>str(e)\<close> it carries. The source has
  two kinds of handler: the bare \<open>except:\<close> around the primary model call catches every
  exception, while \<open>except Exception as e\<close> around the whole body catches only instances of
  \<open>Exception\<close>. \<open>KeyboardInterrupt\<close>, \<open>SystemExit\<close> and \<open>GeneratorExit\<close> derive from
  \<open>BaseException\<close> only, so the second handler lets them through.
\<close>

datatype exn =
    Exception string
  | BaseException string

text \<open>
  The values \<open>json.loads\<close> produces: \<open>None\<close>, \<open>bool\<close>, \<open>int\<close>, \<open>float\<close> (its 64 bits),
  \<open>str\<close>, \<open>list\<close> and \<open>dict\<close> (its items in insertion order; a Python dictionary holds
  each key once).
\<close>

datatype json =
    JNull
  | JBool bool
  | JInt int
  | JFloat "64 word"
  | JStr string
  | JList "json list"
  | JDict "(string \<times> json) list"

text \<open>\<open>s.find(sub)\<close>: the lowest index where \<open>sub\<close> occurs in \<open>s\<close>, if any.\<close>

fun py_find :: "string \<Rightarrow> string \<Rightarrow> nat option" where
  "py_find sub [] = (if sub = [] then Some 0 else None)"
| "py_find sub (c # cs) =
     (if prefix sub (c # cs) then Some 0 else map_option Suc (py_find sub cs))"

text \<open>\<open>sub in s\<close> on strings: the substring test.\<close>

definition py_in :: "string \<Rightarrow> string \<Rightarrow> bool" where
  "py_in sub s = (py_find sub s \<noteq> None)"

lemma py_find_bound: "py_find sub s = Some i \<Longrightarrow> i + length sub \<le> length s"
proof (induction s arbitrary: i)
  case Nil
  then show ?case by (simp split: if_splits)
next
  case (Cons c cs)
  show ?case
  proof (cases "prefix sub (c # cs)")
    case True
    then have "length sub \<le> length (c # cs)" by (rule prefix_length_le)
    with True Cons.prems show ?thesis by simp
  next
    case False
    with Cons.prems obtain j where "py_find sub cs = Some j" "i = Suc j" by auto
    with Cons.IH show ?thesis by fastforce
  qed
qed

text \<open>
  \<open>s.split(sep)\<close> for a non-empty separator: cut at the first occurrence, then split what
  follows it; the occurrences found are the leftmost non-overlapping ones.
\<close>

function split_parts :: "string \<Rightarrow> string \<Rightarrow> string list" where
  "split_parts sep s =
     (if sep = [] then [s]
      else case py_find sep s of
             None \<Rightarrow> [s]
           | Some i \<Rightarrow> take i s # split_parts sep (drop (i + length sep) s))"
  by pat_completeness auto
termination
proof (relation "measure (\<lambda>(sep, s). length s)")
  show "wf (measure (\<lambda>(sep, s). length s))" by simp
next
  fix sep s :: string and i :: nat
  assume "sep \<noteq> []" and "py_find sep s = Some i"
  then have "i + length sep \<le> length s" and "0 < length sep"
    by (simp_all add: py_find_bound)
  then have "length s - (i + length sep) < length s" by arith
  then show "((sep, drop (i + length sep) s), (sep, s)) \<in> measure (\<lambda>(sep, s). length s)"
    by simp
qed

declare split_parts.simps [simp del]

text \<open>\<open>str.split\<close> raises \<open>ValueError\<close> on an empty separator.\<close>

definition py_split :: "string \<Rightarrow> string \<Rightarrow> exn + string list" where
  "py_split s sep =
     (if sep = [] then Inl (Exception ''empty separator'') else Inr (split_parts sep s))"

text \<open>\<open>xs[i]\<close> for \<open>i \<ge> 0\<close>: \<open>IndexError\<close> out of range.\<close>

definition py_index :: "'a list \<Rightarrow> nat \<Rightarrow> exn + 'a" where
  "py_index xs i =
     (if i < length xs then Inr (xs ! i) else Inl (Exception ''list index out of range''))"

text \<open>Sequencing of two steps either of which may raise.\<close>

definition and_then :: "exn + 'a \<Rightarrow> ('a \<Rightarrow> exn + 'b) \<Rightarrow> exn + 'b" where
  "and_then r f = (case r of Inl e \<Rightarrow> Inl e | Inr x \<Rightarrow> f x)"

section \<open>Extracting the JSON text from a model response (app.py, lines 136 to 142)\<close>

definition fence_json :: string where
  \<open>fence_json = ''```json''\<close>

definition fence :: string where
  \<open>fence = ''```''\<close>

text \<open>
  \<^verbatim>\<open>if "```json" in text: text = text.split("```json")[1].split("```")[0]\<close>
  \<^verbatim>\<open>elif "```" in text: text = text.split("```")[1].split("```")[0]\<close>
\<close>

definition between_fences :: "string \<Rightarrow> string \<Rightarrow> exn + string" where
  "between_fences opening text =
     and_then (py_split text opening) (\<lambda>parts.
     and_then (py_index parts 1) (\<lambda>rest.
     and_then (py_split rest fence) (\<lambda>pieces.
     py_index pieces 0)))"

definition strip_fences :: "string \<Rightarrow> exn + string" where
  "strip_fences text =
     (if py_in fence_json text then between_fences fence_json text
      else if py_in fence text then between_fences fence text
      else Inr text)"

text \<open>
  \<open>json.loads\<close> is the standard library's parser: on a string it either returns a value or
  raises \<open>JSONDecodeError\<close>, an instance of \<open>Exception\<close>, whose text is the \<open>Inl\<close> result.
\<close>

type_synonym json_parser = "string \<Rightarrow> string + json"

definition json_loads :: "json_parser \<Rightarrow> string \<Rightarrow> exn + json" where
  "json_loads loads s = (case loads s of Inl msg \<Rightarrow> Inl (Exception msg) | Inr v \<Rightarrow> Inr v)"

definition extract_json :: "json_parser \<Rightarrow> string \<Rightarrow> exn + json" where
  "extract_json loads text = and_then (strip_fences text) (json_loads loads)"

text \<open>
  The reading of the fence-stripping step in the specification: the text in front of the
  first occurrence of a marker, and the text behind it.
\<close>

fun text_before :: "string \<Rightarrow> string \<Rightarrow> string" where
  "text_before sep [] = []"
| "text_before sep (c # cs) = (if prefix sep (c # cs) then [] else c # text_before sep cs)"

fun text_after :: "string \<Rightarrow> string \<Rightarrow> string" where
  "text_after sep [] = []"
| "text_after sep (c # cs) =
     (if prefix sep (c # cs) then drop (length sep) (c # cs) else text_after sep cs)"

definition claimed_strip_fences :: "string \<Rightarrow> string" where
  "claimed_strip_fences text =
     (if py_in fence_json text then text_before fence (text_after fence_json text)
      else if py_in fence text then text_before fence (text_after fence text)
      else text)"

section \<open>The generation service (app.py, \<open>generate_gemini_timeline\<close>)\<close>

text \<open>The f-string of lines 96 to 123, with the two inputs embedded verbatim.\<close>

definition build_prompt :: "string \<Rightarrow> string \<Rightarrow> string" where
  \<open>build_prompt project_desc deadline_str =
     ''\<newline>'' @
     ''        You are an expert Senior Technical Project Manager. \<newline>'' @
     ''        Create a detailed project timeline for: "'' @
     project_desc @
     ''".\<newline>'' @
     ''        Target Deadline: '' @
     deadline_str @
     ''.\<newline>'' @
     ''        \<newline>'' @
     ''        Output stricly VALID JSON with this structure:\<newline>'' @
     ''        {\<newline>'' @
     ''            "project_title": "string",\<newline>'' @
     ''            "executive_summary": "string",\<newline>'' @
     ''            "risk_assessment": {\<newline>'' @
     ''                "level": "Low/Medium/High",\<newline>'' @
     ''                "message": "string",\<newline>'' @
     ''                "mitigation": "string"\<newline>'' @
     ''            },\<newline>'' @
     ''            "phases": [\<newline>'' @
     ''                {\<newline>'' @
     ''                    "name": "Phase Name",\<newline>'' @
     ''                    "duration": "e.g. 1 Week",\<newline>'' @
     ''                    "color": "blue|purple|green|orange",\<newline>'' @
     ''                    "description": "Short phase description",\<newline>'' @
     ''                    "tasks": [\<newline>'' @
     ''                        { "name": "Task Name", "status": "Pending", "dependencies": "e.g. Task A" }\<newline>'' @
     ''                    ],\<newline>'' @
     ''                    "ai_insight": "Specific technical advice for this phase."\<newline>'' @
     ''                }\<newline>'' @
     ''            ]\<newline>'' @
     ''        }\<newline>'' @
     ''        ''\<close>

text \<open>
  The generation service is outside the repository. A call
  \<open>genai.GenerativeModel(name).generate_content(prompt)\<close> either raises or returns a
  response, and reading \<open>response.text\<close> either raises or gives the generated text.
\<close>

type_synonym response = "exn + string"

type_synonym model_service = "string \<Rightarrow> string \<Rightarrow> exn + response"

definition primary_model :: string where
  "primary_model = ''gemini-2.5-flash-lite''"

definition fallback_model :: string where
  "fallback_model = ''gemini-1.5-pro''"

definition fallback_notice :: string where
  "fallback_notice = ''Fallback to gemini-1.5-pro triggered due to primary model failure.''"

text \<open>
  The observable effects of one invocation: the model calls made, each with its model name
  and prompt, and the lines printed, both in order.
\<close>

record trace =
  calls :: "(string \<times> string) list"
  printed :: "string list"

text \<open>
  Lines 125 to 133: the primary call inside \<open>try\<close>, and under the bare \<open>except:\<close> the
  notice and the fallback call, whose own exception is not caught here.
\<close>

definition call_models :: "model_service \<Rightarrow> string \<Rightarrow> (exn + response) \<times> trace" where
  "call_models genai prompt =
     (case genai primary_model prompt of
        Inr response \<Rightarrow>
          (Inr response, \<lparr>calls = [(primary_model, prompt)], printed = []\<rparr>)
      | Inl _ \<Rightarrow>
          (genai fallback_model prompt,
           \<lparr>calls = [(primary_model, prompt), (fallback_model, prompt)],
            printed = [fallback_notice]\<rparr>))"

text \<open>The dictionary \<open>{"error": str(e)}\<close> of line 146.\<close>

definition error_result :: "string \<Rightarrow> json" where
  "error_result msg = JDict [(''error'', JStr msg)]"

text \<open>
  The whole function: the body of the outer \<open>try\<close>, then \<open>except Exception as e\<close>, which
  prints and returns the error dictionary; any other exception leaves the function.
\<close>

definition generate_gemini_timeline ::
  "model_service \<Rightarrow> json_parser \<Rightarrow> string \<Rightarrow> string \<Rightarrow> (exn + json) \<times> trace" where
  "generate_gemini_timeline genai loads project_desc deadline_str =
     (let prompt = build_prompt project_desc deadline_str;
          (response, tr) = call_models genai prompt;
          body = and_then response (\<lambda>r. and_then r (extract_json loads))
      in case body of
           Inr result \<Rightarrow> (Inr result, tr)
         | Inl (Exception msg) \<Rightarrow>
             (Inr (error_result msg), tr\<lparr>printed := printed tr @ [''Gemini Error: '' @ msg]\<rparr>)
         | Inl (BaseException msg) \<Rightarrow> (Inl (BaseException msg), tr))"

section \<open>The routes \<open>/generate\<close> and \<open>/project/<id>\<close> (app.py)\<close>

text \<open>Truth value of a Python value, as \<open>not desc\<close> tests it; a float is false when it is \<open>\<plusminus>0.0\<close>.\<close>

fun truthy :: "json \<Rightarrow> bool" where
  "truthy JNull = False"
| "truthy (JBool b) = b"
| "truthy (JInt i) = (i \<noteq> 0)"
| "truthy (JFloat w) = (w \<noteq> 0 \<and> w \<noteq> 0x8000000000000000)"
| "truthy (JStr s) = (s \<noteq> [])"
| "truthy (JList xs) = (xs \<noteq> [])"
| "truthy (JDict kvs) = (kvs \<noteq> [])"

fun type_name :: "json \<Rightarrow> string" where
  "type_name JNull = ''NoneType''"
| "type_name (JBool b) = ''bool''"
| "type_name (JInt i) = ''int''"
| "type_name (JFloat w) = ''float''"
| "type_name (JStr s) = ''str''"
| "type_name (JList xs) = ''list''"
| "type_name (JDict kvs) = ''dict''"

text \<open>
  \<open>x.get(key, default)\<close>: defined on dictionaries only; on any other value the attribute
  lookup raises \<open>AttributeError\<close>.
\<close>

fun py_get :: "json \<Rightarrow> string \<Rightarrow> json \<Rightarrow> exn + json" where
  "py_get (JDict kvs) key dflt = Inr (case map_of kvs key of Some v \<Rightarrow> v | None \<Rightarrow> dflt)"
| "py_get x key dflt =
     Inl (Exception ([CHR 0x27] @ type_name x @ [CHR 0x27] @ '' object has no attribute 'get'' @
                     [CHR 0x27]))"

text \<open>
  \<open>key in x\<close> for a string \<open>key\<close>: key membership on a dictionary, element membership on
  a list, the substring test on a string, \<open>TypeError\<close> on everything else.
\<close>

fun py_contains :: "string \<Rightarrow> json \<Rightarrow> exn + bool" where
  "py_contains key (JDict kvs) = Inr (key \<in> set (map fst kvs))"
| "py_contains key (JList xs) = Inr (JStr key \<in> set xs)"
| "py_contains key (JStr s) = Inr (py_in key s)"
| "py_contains key x =
     Inl (Exception (''argument of type '' @ [CHR 0x27] @ type_name x @ [CHR 0x27] @
                     '' is not iterable''))"

text \<open>A row of the table \<open>Project\<close>; the title is whatever value the handler passes.\<close>

record project =
  project_id :: nat
  title :: json
  data :: string
  date :: nat
  user_id :: nat

text \<open>
  What a route gives back to Flask: a \<open>jsonify\<close> response with its status, the 404 of
  \<open>get_or_404\<close>, or the redirect to the login view that \<open>@login_required\<close> issues for
  an anonymous user.
\<close>

datatype reply =
    Json nat json
  | NotFound
  | RedirectToLogin

text \<open>
  The collaborators of the routes: the generation service, \<open>json.loads\<close> and \<open>json.dumps\<close>,
  \<open>str()\<close> of a value that is not a string (for the f-string), the exception, if any, with
  which the database refuses a row on commit, and the clock behind the column default.
\<close>

record services =
  genai_service :: model_service
  json_loads_fn :: json_parser
  json_dumps_fn :: "json \<Rightarrow> string"
  py_str :: "json \<Rightarrow> string"
  commit_error :: "project \<Rightarrow> exn option"
  utcnow :: nat

fun format_value :: "services \<Rightarrow> json \<Rightarrow> string" where
  "format_value sv (JStr s) = s"
| "format_value sv x = py_str sv x"

text \<open>The primary key the database gives a new row: one more than the largest in the table.\<close>

definition next_id :: "project list \<Rightarrow> nat" where
  "next_id db = Suc (fold max (map project_id db) 0)"

text \<open>
  Lines 166 to 173, for a logged-in user: the membership test, the title, the insertion.
  An exception raised on the way leaves the handler and the table unchanged.
\<close>

definition save_project ::
  "services \<Rightarrow> nat \<Rightarrow> json \<Rightarrow> project list \<Rightarrow> (exn + unit) \<times> project list" where
  "save_project sv uid result db =
     (case py_contains ''error'' result of
        Inl e \<Rightarrow> (Inl e, db)
      | Inr True \<Rightarrow> (Inr (), db)
      | Inr False \<Rightarrow>
          (case py_get result ''project_title'' (JStr ''Untitled Project'') of
             Inl e \<Rightarrow> (Inl e, db)
           | Inr t \<Rightarrow>
               (let new_project = \<lparr>project_id = next_id db, title = t, data = json_dumps_fn sv result,
                                   date = utcnow sv, user_id = uid\<rparr>
                in case commit_error sv new_project of
                     Some e \<Rightarrow> (Inl e, db)
                   | None \<Rightarrow> (Inr (), db @ [new_project]))))"

text \<open>
  The handler of \<open>/generate\<close>, on the parsed request body; \<open>current_user\<close> is the id of the
  logged-in user, or \<open>None\<close> for an anonymous one.
\<close>

definition generate ::
  "services \<Rightarrow> nat option \<Rightarrow> json \<Rightarrow> project list \<Rightarrow> (exn + reply) \<times> project list \<times> trace" where
  "generate sv current_user body db =
     (let quiet = \<lparr>calls = [], printed = []\<rparr> in
      case py_get body ''description'' JNull of
        Inl e \<Rightarrow> (Inl e, db, quiet)
      | Inr desc \<Rightarrow>
     (case py_get body ''deadline'' JNull of
        Inl e \<Rightarrow> (Inl e, db, quiet)
      | Inr deadline \<Rightarrow>
          if \<not> truthy desc \<or> \<not> truthy deadline
          then (Inr (Json 400 (error_result ''Missing input'')), db, quiet)
          else
            (case generate_gemini_timeline (genai_service sv) (json_loads_fn sv)
                    (format_value sv desc) (format_value sv deadline) of
               (Inl e, tr) \<Rightarrow> (Inl e, db, tr)
             | (Inr result, tr) \<Rightarrow>
                 (case current_user of
                    None \<Rightarrow> (Inr (Json 200 result), db, tr)
                  | Some uid \<Rightarrow>
                      (case save_project sv uid result db of
                         (Inl e, db') \<Rightarrow> (Inl e, db', tr)
                       | (Inr _, db') \<Rightarrow> (Inr (Json 200 result), db', tr))))))"

text \<open>The handler of \<open>/project/<id>\<close>, lines 276 to 282.\<close>

definition get_project :: "services \<Rightarrow> nat option \<Rightarrow> nat \<Rightarrow> project list \<Rightarrow> exn + reply" where
  "get_project sv current_user ident db =
     (case current_user of
        None \<Rightarrow> Inr RedirectToLogin
      | Some uid \<Rightarrow>
          (case find (\<lambda>p. project_id p = ident) db of
             None \<Rightarrow> Inr NotFound
           | Some p \<Rightarrow>
               if user_id p \<noteq> uid then Inr (Json 403 (error_result ''Unauthorized''))
               else and_then (json_loads (json_loads_fn sv) (data p)) (\<lambda>v. Inr (Json 200 v))))"

section \<open>Collaborators for the worked examples\<close>

text \<open>
  A generation service that answers the primary model with one fixed outcome and the
  fallback model with another, whatever the prompt.
\<close>

definition scripted_service :: "exn + response \<Rightarrow> exn + response \<Rightarrow> model_service" where
  "scripted_service primary_outcome fallback_outcome name prompt =
     (if name = primary_model then primary_outcome
      else if name = fallback_model then fallback_outcome
      else Inl (Exception ''404 model not found''))"

text \<open>The plan of the end-to-end scenario of the specification, as text and as value.\<close>

definition mobile_app_text :: string where
  \<open>mobile_app_text =
     ''{"project_title":"Mobile App","executive_summary":"...",'' @
     ''"risk_assessment":{"level":"Low","message":"...","mitigation":"..."},"phases":[]}''\<close>

definition mobile_app :: json where
  "mobile_app = JDict
     [(''project_title'', JStr ''Mobile App''),
      (''executive_summary'', JStr ''...''),
      (''risk_assessment'',
         JDict [(''level'', JStr ''Low''), (''message'', JStr ''...''),
                (''mitigation'', JStr ''...'')]),
      (''phases'', JList [])]"

definition mobile_app_dumped :: string where
  \<open>mobile_app_dumped =
     ''{"project_title": "Mobile App", "executive_summary": "...", '' @
     ''"risk_assessment": {"level": "Low", "message": "...", "mitigation": "..."}, '' @
     ''"phases": []}''\<close>

text \<open>
  What \<open>json.loads\<close> answers on the strings that the examples use (a finite table of the
  library's behaviour; the examples never leave it).
\<close>

definition json_loads_table :: "(string \<times> (string + json)) list" where
  \<open>json_loads_table =
     [(mobile_app_text, Inr mobile_app),
      (''\<newline>'' @ mobile_app_text @ ''\<newline>'', Inr mobile_app),
      (mobile_app_dumped, Inr mobile_app),
      (''{}'', Inr (JDict [])),
      (''\<newline>{}\<newline>'', Inr (JDict [])),
      (''{"a":"```"}'', Inr (JDict [(''a'', JStr ''```'')])),
      (''\<newline>{"a":"```"}\<newline>'', Inr (JDict [(''a'', JStr ''```'')])),
      (''\<newline>{"a":"'', Inl ''Unterminated string starting at: line 2 column 6 (char 6)''),
      ('''', Inl ''Expecting value: line 1 column 1 (char 0)''),
      (''\<newline>{}\<newline>``'', Inl ''Extra data: line 3 column 1 (char 4)''),
      (''Sure! Here's your plan: ...'', Inl ''Expecting value: line 1 column 1 (char 0)''),
      (''{"error": "quota"}'', Inr (JDict [(''error'', JStr ''quota'')])),
      (''[1, 2]'', Inr (JList [JInt 1, JInt 2])),
      (''["error"]'', Inr (JList [JStr ''error''])),
      (''"an error"'', Inr (JStr ''an error'')),
      (''42'', Inr (JInt 42)),
      (''null'', Inr JNull)]\<close>

definition sample_loads :: json_parser where
  "sample_loads s =
     (case map_of json_loads_table s of Some r \<Rightarrow> r | None \<Rightarrow> Inl ''outside the table'')"

text \<open>
  \<open>json.dumps\<close> on the value of the scenario, the only value the examples serialise. The
  examples pass strings as description and deadline, so \<open>str()\<close> is never reached; the
  database accepts every row, and the clock stands at 0.
\<close>

definition sample_dumps :: "json \<Rightarrow> string" where
  "sample_dumps v = (if v = mobile_app then mobile_app_dumped else [])"

definition sample_services :: "exn + response \<Rightarrow> exn + response \<Rightarrow> services" where
  "sample_services primary_outcome fallback_outcome =
     \<lparr>genai_service = scripted_service primary_outcome fallback_outcome,
      json_loads_fn = sample_loads,
      json_dumps_fn = sample_dumps,
      py_str = (\<lambda>v. []),
      commit_error = (\<lambda>p. None),
      utcnow = 0\<rparr>"

text \<open>The request body of the scenario, and the row it leaves in an empty table for user 7.\<close>

definition sample_request :: json where
  "sample_request =
     JDict [(''description'', JStr ''Build a mobile app''), (''deadline'', JStr ''3 weeks'')]"

definition mobile_app_row :: project where
  "mobile_app_row =
     \<lparr>project_id = 1, title = JStr ''Mobile App'', data = mobile_app_dumped, date = 0,
      user_id = 7\<rparr>"

section \<open>Properties of the string operations\<close>

lemma text_before_find:
  "text_before sep s = (case py_find sep s of None \<Rightarrow> s | Some i \<Rightarrow> take i s)"
  by (induction s) (auto split: option.splits)

lemma text_after_find:
  "text_after sep s =
     (case py_find sep s of None \<Rightarrow> [] | Some i \<Rightarrow> drop (i + length sep) s)"
  by (induction s) (auto split: option.splits)

lemma split_parts_hd:
  "sep \<noteq> [] \<Longrightarrow> \<exists>rest. split_parts sep s = text_before sep s # rest"
  by (subst split_parts.simps) (simp add: text_before_find split: option.splits)

lemma split_parts_second:
  assumes "sep \<noteq> []" "py_in sep s"
  shows "\<exists>rest. split_parts sep s =
           text_before sep s # text_before sep (text_after sep s) # rest"
proof -
  from assms(2) obtain i where i: "py_find sep s = Some i"
    by (auto simp: py_in_def)
  from split_parts_hd [OF assms(1), of "drop (i + length sep) s"]
  obtain rest where "split_parts sep (drop (i + length sep) s) =
      text_before sep (drop (i + length sep) s) # rest"
    by blast
  with i assms(1) show ?thesis
    by (subst split_parts.simps) (simp add: text_before_find text_after_find)
qed

lemma prefix_text_before: "prefix (text_before sep s) s"
  by (induction s) auto

lemma py_in_Cons: "py_in sep (c # cs) = (prefix sep (c # cs) \<or> py_in sep cs)"
  by (simp add: py_in_def)

lemma py_in_Nil: "py_in sep [] = (sep = [])"
  by (simp add: py_in_def)

lemma text_before_no_marker: "\<not> py_in sep s \<Longrightarrow> text_before sep s = s"
  by (induction s) (auto simp: py_in_Cons)

lemma text_before_free: "sep \<noteq> [] \<Longrightarrow> \<not> py_in sep (text_before sep s)"
proof (induction s)
  case Nil
  then show ?case by (simp add: py_in_Nil)
next
  case (Cons c cs)
  show ?case
  proof (cases "prefix sep (c # cs)")
    case True
    with Cons.prems show ?thesis by (simp add: py_in_Nil)
  next
    case False
    have "prefix (c # text_before sep cs) (c # cs)"
      by (simp add: prefix_text_before)
    with False have "\<not> prefix sep (c # text_before sep cs)"
      using prefix_order.trans by blast
    with False Cons show ?thesis by (simp add: py_in_Cons)
  qed
qed

lemma text_before_idem:
  "sep \<noteq> [] \<Longrightarrow> text_before sep (text_before sep s) = text_before sep s"
  by (simp add: text_before_free text_before_no_marker)

lemma marker_split: "py_in sep s \<Longrightarrow> s = text_before sep s @ sep @ text_after sep s"
proof (induction s)
  case Nil
  then show ?case by (simp add: py_in_Nil)
next
  case (Cons c cs)
  show ?case
  proof (cases "prefix sep (c # cs)")
    case True
    then obtain r where r: "c # cs = sep @ r" by (auto simp: prefix_def)
    from True have "text_before sep (c # cs) = []"
      and "text_after sep (c # cs) = drop (length sep) (c # cs)" by simp_all
    with r show ?thesis by simp
  next
    case False
    with Cons show ?thesis by (simp add: py_in_Cons)
  qed
qed

lemma first_marker:
  assumes "sep \<noteq> []" "\<not> py_in sep (pre @ butlast sep)"
  shows "py_in sep (pre @ sep @ rest) \<and> text_before sep (pre @ sep @ rest) = pre
         \<and> text_after sep (pre @ sep @ rest) = rest"
  using assms(2)
proof (induction pre)
  case Nil
  from assms(1) obtain a as where sep: "sep = a # as" by (cases sep) auto
  then show ?case by (simp add: py_in_Cons)
next
  case (Cons c cs)
  from Cons.prems have np: "\<not> prefix sep (c # cs @ butlast sep)"
    and rest: "\<not> py_in sep (cs @ butlast sep)" by (simp_all add: py_in_Cons)
  have "\<not> prefix sep (c # cs @ sep @ rest)"
  proof
    assume a: "prefix sep (c # cs @ sep @ rest)"
    have "prefix (butlast sep) sep" by (simp add: prefixeq_butlast)
    then have b: "prefix (c # cs @ butlast sep) (c # cs @ sep @ rest)"
      by (simp add: prefix_def) (metis append.assoc)
    have "length sep \<le> length (c # cs @ butlast sep)" by simp
    with a b have "prefix sep (c # cs @ butlast sep)" by (rule prefix_length_prefix)
    with np show False by simp
  qed
  with Cons.IH [OF rest] show ?case by (simp add: py_in_Cons)
qed

lemma between_fences_eq:
  assumes "opening \<noteq> []" "py_in opening text"
  shows "between_fences opening text =
           Inr (text_before fence (text_before opening (text_after opening text)))"
proof -
  from split_parts_second [OF assms]
  obtain rest where parts: "split_parts opening text =
      text_before opening text # text_before opening (text_after opening text) # rest"
    by blast
  have "fence \<noteq> []" by (simp add: fence_def)
  from split_parts_hd [OF this, of "text_before opening (text_after opening text)"]
  obtain rest' where pieces:
    "split_parts fence (text_before opening (text_after opening text)) =
      text_before fence (text_before opening (text_after opening text)) # rest'"
    by blast
  from assms(1) parts pieces \<open>fence \<noteq> []\<close> show ?thesis
    by (simp add: between_fences_def py_split_def py_index_def and_then_def)
qed

lemma fences_nonempty: "fence \<noteq> []" "fence_json \<noteq> []"
  by (simp_all add: fence_def fence_json_def)

lemma strip_fences_eq:
  "strip_fences text =
     Inr (if py_in fence_json text
          then text_before fence (text_before fence_json (text_after fence_json text))
          else if py_in fence text then text_before fence (text_after fence text)
          else text)"
  by (simp add: strip_fences_def between_fences_eq fences_nonempty text_before_idem)

lemma py_in_append: "py_in sep a \<Longrightarrow> py_in sep (a @ b)"
proof (induction a)
  case Nil
  then have "sep = []" by (simp add: py_in_Nil)
  then show ?case by (cases b) (simp_all add: py_in_def)
next
  case (Cons c cs)
  have "prefix sep (c # cs) \<Longrightarrow> prefix sep ((c # cs) @ b)"
    by (rule prefix_prefix)
  with Cons show ?case by (auto simp: py_in_Cons)
qed

lemma butlast_fences:
  "butlast fence = [CHR 0x60, CHR 0x60]"
  "butlast fence_json = [CHR 0x60, CHR 0x60, CHR 0x60, CHR ''j'', CHR ''s'', CHR ''o'']"
  by (simp_all add: fence_def fence_json_def)

lemma json_marker_border:
  "\<not> py_in fence_json pre \<Longrightarrow> \<not> py_in fence_json (pre @ butlast fence_json)"
proof (induction pre)
  case Nil
  show ?case by (simp add: fence_json_def py_in_def)
next
  case (Cons c cs)
  have "prefix fence_json (c # cs @ butlast fence_json) \<Longrightarrow> prefix fence_json (c # cs)"
    unfolding fence_json_def
    by (auto simp: prefix_append Cons_eq_append_conv prefix_Cons)
  with Cons show ?case by (auto simp: py_in_Cons)
qed

lemma cut_at_next_json:
  assumes "\<not> prefix [CHR 0x60, CHR ''j'', CHR ''s'', CHR ''o'', CHR ''n''] post"
    and "\<not> prefix [CHR 0x60, CHR 0x60, CHR ''j'', CHR ''s'', CHR ''o'', CHR ''n''] post"
  shows "\<not> py_in fence (mid @ [CHR 0x60, CHR 0x60]) \<Longrightarrow>
    \<exists>w. text_before fence_json (mid @ fence @ post) = mid @ w \<and> (w = [] \<or> prefix fence w)"
proof (induction mid)
  case Nil
  show ?case
  proof (cases "prefix fence_json (fence @ post)")
    case True
    then have "text_before fence_json (fence @ post) = []"
      by (simp add: fence_def)
    then show ?thesis by simp
  next
    case False
    with assms have "text_before fence_json (fence @ post) = fence @ text_before fence_json post"
      by (simp add: fence_def fence_json_def)
    then show ?thesis by auto
  qed
next
  case (Cons c cs)
  from Cons.prems have np: "\<not> prefix fence (c # cs @ [CHR 0x60, CHR 0x60])"
    and rest: "\<not> py_in fence (cs @ [CHR 0x60, CHR 0x60])" by (simp_all add: py_in_Cons)
  have "prefix fence (c # cs @ fence @ post) \<Longrightarrow> prefix fence (c # cs @ [CHR 0x60, CHR 0x60])"
    unfolding fence_def
    by (auto simp: prefix_append Cons_eq_append_conv prefix_Cons)
  moreover have "prefix fence fence_json"
    by (simp add: fence_def fence_json_def)
  then have "prefix fence_json (c # cs @ fence @ post) \<Longrightarrow> prefix fence (c # cs @ fence @ post)"
    by (rule prefix_order.trans)
  ultimately have "\<not> prefix fence_json (c # cs @ fence @ post)"
    using np by blast
  with Cons.IH [OF rest] show ?case by auto
qed

lemma cut_at_fence:
  assumes "\<not> py_in fence (mid @ [CHR 0x60, CHR 0x60])" "w = [] \<or> prefix fence w"
  shows "text_before fence (mid @ w) = mid"
proof (cases "w = []")
  case True
  from assms(1) have "\<not> py_in fence mid" using py_in_append by blast
  with True show ?thesis by (simp add: text_before_no_marker)
next
  case False
  with assms(2) obtain w' where "w = fence @ w'" by (auto simp: prefix_def)
  with first_marker [of fence mid w'] assms(1) show ?thesis
    by (simp add: fences_nonempty butlast_fences)
qed

lemma strip_json_block:
  assumes "\<not> py_in fence_json pre"
    and "\<not> py_in fence (mid @ [CHR 0x60, CHR 0x60])"
    and "\<not> prefix [CHR 0x60, CHR ''j'', CHR ''s'', CHR ''o'', CHR ''n''] post"
    and "\<not> prefix [CHR 0x60, CHR 0x60, CHR ''j'', CHR ''s'', CHR ''o'', CHR ''n''] post"
  shows "strip_fences (pre @ fence_json @ mid @ fence @ post) = Inr mid"
proof -
  from assms(1) have "\<not> py_in fence_json (pre @ butlast fence_json)"
    by (rule json_marker_border)
  with first_marker [of fence_json pre "mid @ fence @ post"]
  have found: "py_in fence_json (pre @ fence_json @ mid @ fence @ post)"
    and after: "text_after fence_json (pre @ fence_json @ mid @ fence @ post) = mid @ fence @ post"
    by (simp_all add: fences_nonempty)
  from cut_at_next_json [OF assms(3,4,2)]
  obtain w where w: "text_before fence_json (mid @ fence @ post) = mid @ w"
    "w = [] \<or> prefix fence w" by blast
  from cut_at_fence [OF assms(2) w(2)] have "text_before fence (mid @ w) = mid" .
  with found after w(1) show ?thesis by (simp add: strip_fences_eq)
qed

lemma json_marker_is_fence: "py_in fence_json t \<Longrightarrow> py_in fence t"
proof (induction t)
  case Nil
  then show ?case by (simp add: py_in_Nil fences_nonempty)
next
  case (Cons c cs)
  have "prefix fence fence_json" by (simp add: fence_def fence_json_def)
  then have "prefix fence_json (c # cs) \<Longrightarrow> prefix fence (c # cs)"
    by (rule prefix_order.trans)
  with Cons show ?case by (auto simp: py_in_Cons)
qed

lemma fence_free_line:
  "\<not> py_in fence body \<Longrightarrow>
   \<not> py_in fence ((CHR ''\<newline>'' # body @ [CHR ''\<newline>'']) @ [CHR 0x60, CHR 0x60])"
proof -
  assume free: "\<not> py_in fence body"
  have tail: "\<not> py_in fence (b @ [CHR ''\<newline>'', CHR 0x60, CHR 0x60])"
    if "\<not> py_in fence b" for b
    using that
  proof (induction b)
    case Nil
    show ?case by (simp add: py_in_def fence_def)
  next
    case (Cons c cs)
    have "prefix fence (c # cs @ [CHR ''\<newline>'', CHR 0x60, CHR 0x60]) \<Longrightarrow>
        prefix fence (c # cs)"
      unfolding fence_def
      by (auto simp: prefix_append Cons_eq_append_conv prefix_Cons)
    with Cons show ?case by (auto simp: py_in_Cons)
  qed
  have "\<not> prefix fence (CHR ''\<newline>'' # body @ [CHR ''\<newline>'', CHR 0x60, CHR 0x60])"
    by (simp add: fence_def)
  with tail [OF free] show ?thesis by (simp add: py_in_Cons)
qed

section \<open>Properties of the generation service\<close>

lemma json_loads_cases:
  "json_loads loads s = (case loads s of Inl msg \<Rightarrow> Inl (Exception msg) | Inr v \<Rightarrow> Inr v)"
  by (simp add: json_loads_def)

lemma extract_json_stripped:
  "strip_fences text = Inr s \<Longrightarrow> extract_json loads text = json_loads loads s"
  by (simp add: extract_json_def and_then_def)

lemma generate_on_text:
  assumes "call_models genai (build_prompt project_desc deadline_str) = (Inr (Inr text), tr)"
    and "strip_fences text = Inr s"
  shows "generate_gemini_timeline genai loads project_desc deadline_str =
    (case loads s of
       Inr v \<Rightarrow> (Inr v, tr)
     | Inl msg \<Rightarrow>
         (Inr (error_result msg), tr\<lparr>printed := printed tr @ [''Gemini Error: '' @ msg]\<rparr>))"
  using assms
  by (simp add: generate_gemini_timeline_def extract_json_stripped json_loads_def and_then_def
      split: sum.splits)


lemma call_models_primary:
  "genai primary_model prompt = Inr r \<Longrightarrow>
   call_models genai prompt = (Inr r, \<lparr>calls = [(primary_model, prompt)], printed = []\<rparr>)"
  by (simp add: call_models_def)



section \<open>Properties of the routes\<close>

lemma generate_with_result:
  assumes "py_get body ''description'' JNull = Inr desc"
    and "py_get body ''deadline'' JNull = Inr deadline"
    and "truthy desc" and "truthy deadline"
    and "generate_gemini_timeline (genai_service sv) (json_loads_fn sv)
           (format_value sv desc) (format_value sv deadline) = (Inr result, tr)"
  shows "generate sv current_user body db =
    (case current_user of
       None \<Rightarrow> (Inr (Json 200 result), db, tr)
     | Some uid \<Rightarrow>
         (case save_project sv uid result db of
            (Inl e, db') \<Rightarrow> (Inl e, db', tr)
          | (Inr u, db') \<Rightarrow> (Inr (Json 200 result), db', tr)))"
  using assms by (simp add: generate_def split: option.splits)

lemma save_project_error_key:
  "py_contains ''error'' result = Inr True \<Longrightarrow> save_project sv uid result db = (Inr (), db)"
  by (simp add: save_project_def)

lemma fold_max_ge: "(a::nat) \<le> fold max xs a \<and> (\<forall>x\<in>set xs. x \<le> fold max xs a)"
proof (induction xs arbitrary: a)
  case Nil
  show ?case by simp
next
  case (Cons y ys)
  from Cons [of "max y a"] show ?case by auto
qed

lemma next_id_fresh: "p \<in> set db \<Longrightarrow> project_id p < next_id db"
proof -
  assume "p \<in> set db"
  then have "project_id p \<in> set (map project_id db)" by simp
  with fold_max_ge [of 0 "map project_id db"] have "project_id p \<le> fold max (map project_id db) 0"
    by blast
  then show ?thesis by (simp add: next_id_def)
qed

lemma find_past_others:
  "\<forall>x\<in>set xs. \<not> P x \<Longrightarrow> P new \<Longrightarrow> find P (xs @ new # later) = Some new"
  by (induction xs) simp_all

lemma find_new_project:
  assumes "project_id new = next_id db"
  shows "find (\<lambda>p. project_id p = next_id db) (db @ new # later) = Some new"
proof (rule find_past_others)
  show "\<forall>x\<in>set db. project_id x \<noteq> next_id db"
    using next_id_fresh by fastforce
  show "project_id new = next_id db" by (rule assms)
qed

lemma save_project_changes:
  assumes "save_project sv uid result db = (r, db')" and "db' \<noteq> db"
  shows "\<exists>t. db' = db @ [\<lparr>project_id = next_id db, title = t, data = json_dumps_fn sv result,
                            date = utcnow sv, user_id = uid\<rparr>]"
  using assms
  by (auto simp: save_project_def Let_def split: sum.splits bool.splits option.splits)

lemma generate_changes:
  assumes "generate sv (Some uid) body db = (Inr (Json 200 result), db', tr)" and "db' \<noteq> db"
  shows "\<exists>r. save_project sv uid result db = (r, db')"
  using assms
  by (auto simp: generate_def Let_def split: sum.splits prod.splits if_splits)

section \<open>The claims of the specification\<close>

subsection \<open>C4: the three cases of fence stripping\<close>

text \<open>
  C4 (as stated) says that on a text holding a \<open>json\<close>-tagged fence the step extracts the
  content between the first such opening fence and the next closing fence, which is
  \<^const>\<open>claimed_strip_fences\<close>. The source first cuts at the next \<open>```json\<close>, then at the
  first \<open>```\<close> of what is left; when the closing fence is a run of four or five backticks
  directly followed by \<open>json\<close> the two differ.
\<close>

theorem strip_fences_claimed_counterexample:
  \<open>strip_fences ''```jsona`````json'' = Inr ''a``''
   \<and> claimed_strip_fences ''```jsona`````json'' = ''a''
   \<and> ''```jsona`````json'' = fence_json @ ''a'' @ fence @ ''``json''\<close>
  by code_simp

text \<open>
  C4 (amended): for every response text the step selects exactly one of three cases and
  never raises. If the text contains \<open>```json\<close>, the segment between the first \<open>```json\<close>
  and the next \<open>```json\<close> (or the end of the text) is cut at its first \<open>```\<close> and extracted;
  otherwise, if the text contains \<open>```\<close>, the content between the first \<open>```\<close> and the next
  \<open>```\<close> (or the end of the text) is extracted; otherwise the raw text is used unmodified.
  Whenever no second \<open>```json\<close> follows the first one, the result is the claimed one: the
  content between the first opening fence and the next closing fence.
\<close>

theorem strip_fences_cases:
  "strip_fences text =
     Inr (if py_in fence_json text
          then text_before fence (text_before fence_json (text_after fence_json text))
          else if py_in fence text then text_before fence (text_after fence text)
          else text)
   \<and> (\<not> py_in fence_json (text_after fence_json text) \<longrightarrow>
        strip_fences text = Inr (claimed_strip_fences text))"
proof -
  have "strip_fences text = Inr (claimed_strip_fences text)"
    if "\<not> py_in fence_json (text_after fence_json text)"
  proof -
    from that have "text_before fence_json (text_after fence_json text) =
        text_after fence_json text"
      by (rule text_before_no_marker)
    then show ?thesis by (simp add: strip_fences_eq claimed_strip_fences_def)
  qed
  then show ?thesis by (simp add: strip_fences_eq)
qed

theorem strip_fences_cases_witness:
  \<open>\<not> py_in fence_json (text_after fence_json ''Plan:```json{"phases": []}```Done'')
   \<and> strip_fences ''Plan:```json{"phases": []}```Done'' =
       Inr (claimed_strip_fences ''Plan:```json{"phases": []}```Done'')
   \<and> claimed_strip_fences ''Plan:```json{"phases": []}```Done'' = ''{"phases": []}''\<close>
proof -
  have h: \<open>\<not> py_in fence_json (text_after fence_json ''Plan:```json{"phases": []}```Done'')\<close>
    by code_simp
  have v: \<open>claimed_strip_fences ''Plan:```json{"phases": []}```Done'' = ''{"phases": []}''\<close>
    by code_simp
  from strip_fences_cases [THEN conjunct2, rule_format, OF h] h v show ?thesis by simp
qed

subsection \<open>C1: a fenced, valid answer of the primary model\<close>

text \<open>
  C1 (as stated) promises the parsed object for every primary answer that is a \<open>json\<close>-tagged
  fenced block around valid JSON. When the JSON itself holds a \<open>```\<close> inside a string, the
  step of lines 137 to 140 cuts the content there: the parser gets the truncated text and
  raises, and the function returns the error dictionary, although the content between the
  two fences parses.
\<close>

theorem generate_fenced_json_counterexample:
  \<open>generate_gemini_timeline
     (scripted_service
        (Inr (Inr (fence_json @ ''\<newline>{"a":"```"}\<newline>'' @ fence)))
        (Inl (Exception ''unused'')))
     sample_loads ''Build a mobile app'' ''3 weeks'' =
     (Inr (error_result ''Unterminated string starting at: line 2 column 6 (char 6)''),
      \<lparr>calls = [(primary_model, build_prompt ''Build a mobile app'' ''3 weeks'')],
       printed = [''Gemini Error: '' @
                    ''Unterminated string starting at: line 2 column 6 (char 6)'']\<rparr>)
   \<and> sample_loads ''\<newline>{"a":"```"}\<newline>'' = Inr (JDict [(''a'', JStr ''```'')])\<close>
  by code_simp

text \<open>
  C1 (amended): for every non-empty description and deadline, if the primary model call
  succeeds and its text is a \<open>json\<close>-tagged fenced block (the opening fence, the content, the
  closing fence) whose content holds no \<open>```\<close> of its own, so that the closing fence is the
  first \<open>```\<close> after the opening one, and whose content parses, then the function returns
  exactly the parsed value, after one model call and without printing.
\<close>

theorem generate_fenced_json:
  assumes "project_desc \<noteq> []" and "deadline_str \<noteq> []"
    and "genai primary_model (build_prompt project_desc deadline_str) =
           Inr (Inr (fence_json @ content @ fence))"
    and "\<not> py_in fence (content @ [CHR 0x60, CHR 0x60])"
    and "loads content = Inr v"
  shows "generate_gemini_timeline genai loads project_desc deadline_str =
           (Inr v, \<lparr>calls = [(primary_model, build_prompt project_desc deadline_str)],
                    printed = []\<rparr>)"
proof -
  have "strip_fences ([] @ fence_json @ content @ fence @ []) = Inr content"
    using assms(4) by (intro strip_json_block) (simp_all add: py_in_Nil fences_nonempty)
  then have "strip_fences (fence_json @ content @ fence) = Inr content" by simp
  moreover from assms(3)
  have "call_models genai (build_prompt project_desc deadline_str) =
      (Inr (Inr (fence_json @ content @ fence)),
       \<lparr>calls = [(primary_model, build_prompt project_desc deadline_str)], printed = []\<rparr>)"
    by (rule call_models_primary)
  ultimately show ?thesis
    using assms(5) by (simp add: generate_on_text)
qed

theorem generate_fenced_json_witness:
  "''Build a mobile app'' \<noteq> [] \<and> ''3 weeks'' \<noteq> []
   \<and> scripted_service
         (Inr (Inr (fence_json @ (''\<newline>'' @ mobile_app_text @ ''\<newline>'') @ fence)))
         (Inl (Exception ''unused''))
         primary_model (build_prompt ''Build a mobile app'' ''3 weeks'') =
       Inr (Inr (fence_json @ (''\<newline>'' @ mobile_app_text @ ''\<newline>'') @ fence))
   \<and> \<not> py_in fence ((''\<newline>'' @ mobile_app_text @ ''\<newline>'') @ [CHR 0x60, CHR 0x60])
   \<and> sample_loads (''\<newline>'' @ mobile_app_text @ ''\<newline>'') = Inr mobile_app
   \<and> generate_gemini_timeline
         (scripted_service
           (Inr (Inr (fence_json @ (''\<newline>'' @ mobile_app_text @ ''\<newline>'') @ fence)))
           (Inl (Exception ''unused'')))
         sample_loads ''Build a mobile app'' ''3 weeks'' =
       (Inr mobile_app,
        \<lparr>calls = [(primary_model, build_prompt ''Build a mobile app'' ''3 weeks'')],
         printed = []\<rparr>)"
proof -
  have h1: "''Build a mobile app'' \<noteq> []" and h2: "''3 weeks'' \<noteq> []" by simp_all
  have h3: "scripted_service
         (Inr (Inr (fence_json @ (''\<newline>'' @ mobile_app_text @ ''\<newline>'') @ fence)))
         (Inl (Exception ''unused''))
         primary_model (build_prompt ''Build a mobile app'' ''3 weeks'') =
       Inr (Inr (fence_json @ (''\<newline>'' @ mobile_app_text @ ''\<newline>'') @ fence))"
    by (simp add: scripted_service_def)
  have h4: "\<not> py_in fence
      ((''\<newline>'' @ mobile_app_text @ ''\<newline>'') @ [CHR 0x60, CHR 0x60])"
    by code_simp
  have h5: "sample_loads (''\<newline>'' @ mobile_app_text @ ''\<newline>'') = Inr mobile_app"
    by code_simp
  note c = generate_fenced_json [where loads = sample_loads and genai = "scripted_service
         (Inr (Inr (fence_json @ (''\<newline>'' @ mobile_app_text @ ''\<newline>'') @ fence)))
         (Inl (Exception ''unused''))", OF h1 h2 h3 h4 h5]
  show ?thesis by (intro conjI h1 h2 h3 h4 h5 c)
qed

subsection \<open>C2: the fallback after a failure of the primary model\<close>



subsection \<open>C3: both models fail\<close>




subsection \<open>C5: stripping the fences does not change what is parsed\<close>

text \<open>
  C5 (as stated) holds for every body and every surrounding text. It fails when the body
  itself holds a \<open>```\<close> (inside a JSON string), when the prefix holds a \<open>```json\<close>, and
  when the suffix begins with \<open>`json\<close> or \<open>``json\<close>: the text handed to the parser is then
  not the body, and the parser rejects it, while the body alone parses.
\<close>

theorem fence_stripping_preserves_parse_counterexample:
  \<open>extract_json sample_loads
       ([] @ fence_json @ (''\<newline>'' @ ''{"a":"```"}'' @ ''\<newline>'') @ fence @ []) =
     Inl (Exception ''Unterminated string starting at: line 2 column 6 (char 6)'')
   \<and> json_loads sample_loads ''{"a":"```"}'' = Inr (JDict [(''a'', JStr ''```'')])
   \<and> extract_json sample_loads
       (''```json'' @ fence_json @ (''\<newline>'' @ ''{}'' @ ''\<newline>'') @ fence @ []) =
     Inl (Exception ''Expecting value: line 1 column 1 (char 0)'')
   \<and> extract_json sample_loads
       ([] @ fence_json @ (''\<newline>'' @ ''{}'' @ ''\<newline>'') @ fence @ ''``json'') =
     Inl (Exception ''Extra data: line 3 column 1 (char 4)'')
   \<and> json_loads sample_loads ''{}'' = Inr (JDict [])\<close>
  by code_simp

text \<open>
  C5 (amended): for every body holding no \<open>```\<close>, every prefix holding no \<open>```json\<close> and
  every suffix that does not begin with \<open>`json\<close> or \<open>``json\<close>, parsing the response
  \<open>prefix```json\n{...}\n```suffix\<close> after fence stripping gives what parsing \<open>{...}\<close>
  gives, for a parser that ignores the two line breaks around the body (as \<open>json.loads\<close>
  does); and for every response text without \<open>```\<close> the result is that of parsing the raw
  text.
\<close>

theorem fence_stripping_preserves_parse:
  "(\<not> py_in fence_json pre \<and> \<not> py_in fence body
      \<and> \<not> prefix [CHR 0x60, CHR ''j'', CHR ''s'', CHR ''o'', CHR ''n''] post
      \<and> \<not> prefix [CHR 0x60, CHR 0x60, CHR ''j'', CHR ''s'', CHR ''o'', CHR ''n''] post
      \<and> loads (''\<newline>'' @ body @ ''\<newline>'') = loads body
    \<longrightarrow> extract_json loads
          (pre @ fence_json @ (''\<newline>'' @ body @ ''\<newline>'') @ fence @ post) =
        json_loads loads body)
   \<and> (\<not> py_in fence raw \<longrightarrow> extract_json loads raw = json_loads loads raw)"
proof (intro conjI impI)
  assume h: "\<not> py_in fence_json pre \<and> \<not> py_in fence body
      \<and> \<not> prefix [CHR 0x60, CHR ''j'', CHR ''s'', CHR ''o'', CHR ''n''] post
      \<and> \<not> prefix [CHR 0x60, CHR 0x60, CHR ''j'', CHR ''s'', CHR ''o'', CHR ''n''] post
      \<and> loads (''\<newline>'' @ body @ ''\<newline>'') = loads body"
  then have "\<not> py_in fence ((''\<newline>'' @ body @ ''\<newline>'') @ [CHR 0x60, CHR 0x60])"
    using fence_free_line [of body] by simp
  with h have "strip_fences (pre @ fence_json @ (''\<newline>'' @ body @ ''\<newline>'') @ fence @ post) =
      Inr (''\<newline>'' @ body @ ''\<newline>'')"
    by (intro strip_json_block) simp_all
  then have "extract_json loads
      (pre @ fence_json @ (''\<newline>'' @ body @ ''\<newline>'') @ fence @ post) =
      json_loads loads (''\<newline>'' @ body @ ''\<newline>'')"
    by (rule extract_json_stripped)
  with h show "extract_json loads
      (pre @ fence_json @ (''\<newline>'' @ body @ ''\<newline>'') @ fence @ post) =
      json_loads loads body"
    by (simp add: json_loads_def)
next
  assume free: "\<not> py_in fence raw"
  then have "\<not> py_in fence_json raw" using json_marker_is_fence by blast
  with free have "strip_fences raw = Inr raw" by (simp add: strip_fences_eq)
  then show "extract_json loads raw = json_loads loads raw"
    by (rule extract_json_stripped)
qed

theorem fence_stripping_preserves_parse_witness:
  "\<not> py_in fence_json ''Here is the plan: '' \<and> \<not> py_in fence mobile_app_text
   \<and> \<not> prefix [CHR 0x60, CHR ''j'', CHR ''s'', CHR ''o'', CHR ''n''] '' Good luck!''
   \<and> \<not> prefix [CHR 0x60, CHR 0x60, CHR ''j'', CHR ''s'', CHR ''o'', CHR ''n''] '' Good luck!''
   \<and> sample_loads (''\<newline>'' @ mobile_app_text @ ''\<newline>'') = sample_loads mobile_app_text
   \<and> extract_json sample_loads
         (''Here is the plan: '' @ fence_json @ (''\<newline>'' @ mobile_app_text @ ''\<newline>'') @
          fence @ '' Good luck!'') =
       json_loads sample_loads mobile_app_text
   \<and> json_loads sample_loads mobile_app_text = Inr mobile_app
   \<and> \<not> py_in fence ''[1, 2]''
   \<and> extract_json sample_loads ''[1, 2]'' = json_loads sample_loads ''[1, 2]''"
proof -
  have h: "\<not> py_in fence_json ''Here is the plan: '' \<and> \<not> py_in fence mobile_app_text
   \<and> \<not> prefix [CHR 0x60, CHR ''j'', CHR ''s'', CHR ''o'', CHR ''n''] '' Good luck!''
   \<and> \<not> prefix [CHR 0x60, CHR 0x60, CHR ''j'', CHR ''s'', CHR ''o'', CHR ''n''] '' Good luck!''
   \<and> sample_loads (''\<newline>'' @ mobile_app_text @ ''\<newline>'') = sample_loads mobile_app_text"
    by code_simp
  have v: "json_loads sample_loads mobile_app_text = Inr mobile_app" by code_simp
  have g: "\<not> py_in fence ''[1, 2]''" by code_simp
  note c = fence_stripping_preserves_parse
    [where loads = sample_loads and pre = "''Here is the plan: ''" and body = mobile_app_text
       and post = "'' Good luck!''" and raw = "''[1, 2]''"]
  from c [THEN conjunct1, rule_format, OF h] c [THEN conjunct2, rule_format, OF g] h v g
  show ?thesis by blast
qed

subsection \<open>C6: text that does not parse\<close>



subsection \<open>C7: no schema validation\<close>

text \<open>
  C7: whichever model answered, if the fence-stripped text of the response parses, the
  function returns the parsed value as it is, whatever its shape: no field is looked at.
  The example that follows is the empty object, which has neither \<open>phases\<close> nor any
  other documented field.
\<close>

theorem no_schema_validation:
  assumes "fst (call_models genai (build_prompt project_desc deadline_str)) = Inr (Inr text)"
    and "strip_fences text = Inr s"
    and "loads s = Inr v"
  shows "generate_gemini_timeline genai loads project_desc deadline_str =
           (Inr v, snd (call_models genai (build_prompt project_desc deadline_str)))"
proof -
  obtain tr where "call_models genai (build_prompt project_desc deadline_str) =
      (Inr (Inr text), tr)"
    using assms(1) by (cases "call_models genai (build_prompt project_desc deadline_str)") simp
  from generate_on_text [OF this assms(2)] assms(3) this show ?thesis by simp
qed

theorem no_schema_validation_witness:
  "fst (call_models (scripted_service (Inr (Inr ''{}'')) (Inl (Exception ''unused'')))
        (build_prompt ''Build a mobile app'' ''3 weeks'')) = Inr (Inr ''{}'')
   \<and> strip_fences ''{}'' = Inr ''{}''
   \<and> sample_loads ''{}'' = Inr (JDict [])
   \<and> generate_gemini_timeline
         (scripted_service (Inr (Inr ''{}'')) (Inl (Exception ''unused'')))
         sample_loads ''Build a mobile app'' ''3 weeks'' =
       (Inr (JDict []),
        snd (call_models (scripted_service (Inr (Inr ''{}'')) (Inl (Exception ''unused'')))
              (build_prompt ''Build a mobile app'' ''3 weeks'')))"
proof -
  let ?genai = "scripted_service (Inr (Inr ''{}'')) (Inl (Exception ''unused''))"
  have h1: "fst (call_models ?genai (build_prompt ''Build a mobile app'' ''3 weeks'')) =
      Inr (Inr ''{}'')"
    by (simp add: call_models_def scripted_service_def)
  have h2: "strip_fences ''{}'' = Inr ''{}''" by code_simp
  have h3: "sample_loads ''{}'' = Inr (JDict [])" by code_simp
  note c = no_schema_validation [where genai = ?genai and loads = sample_loads, OF h1 h2 h3]
  show ?thesis by (intro conjI h1 h2 h3 c)
qed

subsection \<open>C8: a stored project is returned to its owner, and to nobody else\<close>

text \<open>
  C8: whenever the handler of \<open>/generate\<close>, run for a logged-in user, answers with a result
  and leaves a changed table, the table has grown by one row that holds \<open>json.dumps\<close> of the
  result under a fresh id and the user's id. A lookup of that id, also after further rows
  were added, gives the owner the stored text parsed back, which is the result itself when
  \<open>json.loads\<close> inverts \<open>json.dumps\<close> on it, and gives every other logged-in user the 403
  reply \<open>Unauthorized\<close>.
\<close>

theorem stored_project_round_trip:
  assumes "generate sv (Some uid) body db = (Inr (Json 200 result), db', tr)"
    and "db' \<noteq> db"
    and "json_loads_fn sv (json_dumps_fn sv result) = Inr result"
  shows "get_project sv (Some uid) (next_id db) (db' @ later) = Inr (Json 200 result)
         \<and> (\<forall>other. other \<noteq> uid \<longrightarrow>
               get_project sv (Some other) (next_id db) (db' @ later) =
                 Inr (Json 403 (error_result ''Unauthorized'')))
         \<and> db' = db @ [last db'] \<and> project_id (last db') = next_id db
         \<and> data (last db') = json_dumps_fn sv result \<and> user_id (last db') = uid"
proof -
  from generate_changes [OF assms(1,2)] obtain r where "save_project sv uid result db = (r, db')"
    by blast
  from save_project_changes [OF this assms(2)] obtain t where
    db': "db' = db @ [\<lparr>project_id = next_id db, title = t, data = json_dumps_fn sv result,
                        date = utcnow sv, user_id = uid\<rparr>]"
    by blast
  let ?new = "\<lparr>project_id = next_id db, title = t, data = json_dumps_fn sv result,
               date = utcnow sv, user_id = uid\<rparr>"
  have found: "find (\<lambda>p. project_id p = next_id db) (db' @ later) = Some ?new"
    using find_new_project [of ?new db later] db' by simp
  from found assms(3) have own: "get_project sv (Some uid) (next_id db) (db' @ later) =
      Inr (Json 200 result)"
    by (simp add: get_project_def json_loads_def and_then_def)
  from found have others: "get_project sv (Some other) (next_id db) (db' @ later) =
      Inr (Json 403 (error_result ''Unauthorized''))" if "other \<noteq> uid" for other
    using that by (simp add: get_project_def)
  from own others db' show ?thesis by simp
qed

theorem stored_project_round_trip_witness:
  \<open>generate
     (sample_services
        (Inr (Inr (fence_json @ (''\<newline>'' @ mobile_app_text @ ''\<newline>'') @ fence)))
        (Inl (Exception ''unused'')))
     (Some 7) sample_request [] =
     (Inr (Json 200 mobile_app), [mobile_app_row],
      \<lparr>calls = [(primary_model, build_prompt ''Build a mobile app'' ''3 weeks'')],
       printed = []\<rparr>)
   \<and> [mobile_app_row] \<noteq> []
   \<and> sample_loads (sample_dumps mobile_app) = Inr mobile_app
   \<and> get_project
         (sample_services
            (Inr (Inr (fence_json @ (''\<newline>'' @ mobile_app_text @ ''\<newline>'') @ fence)))
            (Inl (Exception ''unused'')))
         (Some 7) (next_id []) ([mobile_app_row] @ []) = Inr (Json 200 mobile_app)
   \<and> get_project
         (sample_services
            (Inr (Inr (fence_json @ (''\<newline>'' @ mobile_app_text @ ''\<newline>'') @ fence)))
            (Inl (Exception ''unused'')))
         (Some 8) (next_id []) ([mobile_app_row] @ []) =
         Inr (Json 403 (error_result ''Unauthorized''))
   \<and> next_id [] = 1\<close>
proof -
  let ?sv = \<open>sample_services
      (Inr (Inr (fence_json @ (''\<newline>'' @ mobile_app_text @ ''\<newline>'') @ fence)))
      (Inl (Exception ''unused''))\<close>
  have h1: \<open>generate ?sv (Some 7) sample_request [] =
     (Inr (Json 200 mobile_app), [mobile_app_row],
      \<lparr>calls = [(primary_model, build_prompt ''Build a mobile app'' ''3 weeks'')],
       printed = []\<rparr>)\<close>
    by code_simp
  have h2: "[mobile_app_row] \<noteq> []" by simp
  have h3: "json_loads_fn ?sv (json_dumps_fn ?sv mobile_app) = Inr mobile_app" by code_simp
  have lo: "json_loads_fn ?sv = sample_loads" "json_dumps_fn ?sv = sample_dumps"
    by (simp_all add: sample_services_def)
  note c = stored_project_round_trip [where later = "[]", OF h1 h2 h3]
  note r1 = c [THEN conjunct1]
  from c [THEN conjunct2, THEN conjunct1]
  have r2: \<open>get_project ?sv (Some 8) (next_id []) ([mobile_app_row] @ []) =
      Inr (Json 403 (error_result ''Unauthorized''))\<close>
    by simp
  from h3 lo have h3': "sample_loads (sample_dumps mobile_app) = Inr mobile_app" by simp
  have n: "next_id [] = 1" by (simp add: next_id_def)
  show ?thesis by (intro conjI h1 h2 h3' r1 r2 n)
qed

subsection \<open>C9: a parsed object with the key \<open>error\<close> is taken for a failure\<close>

text \<open>
  C9: the handler of \<open>/generate\<close> tells failure from success by the key \<open>error\<close> alone.
  If the fence-stripped text of the response parses to an object that has this key, the
  handler answers with that object and leaves the table as it was, for a logged-in user as
  for an anonymous one; its membership test gives on this object what it gives on the
  error dictionary of a failed generation.
\<close>

theorem error_key_blocks_saving:
  assumes "py_get body ''description'' JNull = Inr desc"
    and "py_get body ''deadline'' JNull = Inr deadline"
    and "truthy desc" and "truthy deadline"
    and "fst (call_models (genai_service sv)
           (build_prompt (format_value sv desc) (format_value sv deadline))) = Inr (Inr text)"
    and "strip_fences text = Inr s"
    and "json_loads_fn sv s = Inr (JDict kvs)"
    and "''error'' \<in> set (map fst kvs)"
  shows "generate sv current_user body db =
           (Inr (Json 200 (JDict kvs)), db,
            snd (call_models (genai_service sv)
              (build_prompt (format_value sv desc) (format_value sv deadline))))
         \<and> py_contains ''error'' (JDict kvs) = py_contains ''error'' (error_result msg)"
proof -
  let ?prompt = "build_prompt (format_value sv desc) (format_value sv deadline)"
  obtain tr where cm: "call_models (genai_service sv) ?prompt = (Inr (Inr text), tr)"
    using assms(5) by (cases "call_models (genai_service sv) ?prompt") simp
  from generate_on_text [OF cm assms(6)] assms(7)
  have gen: "generate_gemini_timeline (genai_service sv) (json_loads_fn sv)
      (format_value sv desc) (format_value sv deadline) = (Inr (JDict kvs), tr)"
    by simp
  from assms(8) have key: "py_contains ''error'' (JDict kvs) = Inr True" by simp
  then have "save_project sv uid (JDict kvs) db = (Inr (), db)" for uid
    by (rule save_project_error_key)
  with generate_with_result [OF assms(1-4) gen] cm
  have "generate sv current_user body db = (Inr (Json 200 (JDict kvs)), db,
      snd (call_models (genai_service sv) ?prompt))"
    by (simp split: option.splits)
  with key show ?thesis by (simp add: error_result_def)
qed

theorem error_key_blocks_saving_witness:
  \<open>py_get sample_request ''description'' JNull = Inr (JStr ''Build a mobile app'')
   \<and> py_get sample_request ''deadline'' JNull = Inr (JStr ''3 weeks'')
   \<and> truthy (JStr ''Build a mobile app'') \<and> truthy (JStr ''3 weeks'')
   \<and> fst (call_models
         (genai_service (sample_services (Inr (Inr ''{"error": "quota"}''))
                           (Inl (Exception ''unused''))))
         (build_prompt ''Build a mobile app'' ''3 weeks'')) = Inr (Inr ''{"error": "quota"}'')
   \<and> strip_fences ''{"error": "quota"}'' = Inr ''{"error": "quota"}''
   \<and> sample_loads ''{"error": "quota"}'' = Inr (JDict [(''error'', JStr ''quota'')])
   \<and> ''error'' \<in> set (map fst [(''error'', JStr ''quota'')])
   \<and> generate (sample_services (Inr (Inr ''{"error": "quota"}'')) (Inl (Exception ''unused'')))
         (Some 7) sample_request [] =
       (Inr (Json 200 (JDict [(''error'', JStr ''quota'')])), [],
        \<lparr>calls = [(primary_model, build_prompt ''Build a mobile app'' ''3 weeks'')],
         printed = []\<rparr>)\<close>
proof -
  let ?sv = \<open>sample_services (Inr (Inr ''{"error": "quota"}'')) (Inl (Exception ''unused''))\<close>
  have h1: "py_get sample_request ''description'' JNull = Inr (JStr ''Build a mobile app'')"
    and h2: "py_get sample_request ''deadline'' JNull = Inr (JStr ''3 weeks'')"
    by (simp_all add: sample_request_def)
  have h3: "truthy (JStr ''Build a mobile app'')" and h4: "truthy (JStr ''3 weeks'')"
    by simp_all
  have h5: \<open>fst (call_models (genai_service ?sv)
      (build_prompt (format_value ?sv (JStr ''Build a mobile app''))
         (format_value ?sv (JStr ''3 weeks'')))) = Inr (Inr ''{"error": "quota"}'')\<close>
    by (simp add: call_models_def sample_services_def scripted_service_def)
  have h6: \<open>strip_fences ''{"error": "quota"}'' = Inr ''{"error": "quota"}''\<close>
    by code_simp
  have h7: \<open>json_loads_fn ?sv ''{"error": "quota"}'' = Inr (JDict [(''error'', JStr ''quota'')])\<close>
    by code_simp
  have h8: "''error'' \<in> set (map fst [(''error'', JStr ''quota'')])" by simp
  have tr: \<open>snd (call_models (genai_service ?sv)
      (build_prompt (format_value ?sv (JStr ''Build a mobile app''))
         (format_value ?sv (JStr ''3 weeks'')))) =
      \<lparr>calls = [(primary_model, build_prompt ''Build a mobile app'' ''3 weeks'')],
       printed = []\<rparr>\<close>
    by (simp add: call_models_def sample_services_def scripted_service_def)
  note c = error_key_blocks_saving
    [where sv = ?sv and current_user = "Some 7" and db = "[]" and msg = "[]",
     OF h1 h2 h3 h4 h5 h6 h7 h8, THEN conjunct1]
  from c tr have r: \<open>generate ?sv (Some 7) sample_request [] =
      (Inr (Json 200 (JDict [(''error'', JStr ''quota'')])), [],
       \<lparr>calls = [(primary_model, build_prompt ''Build a mobile app'' ''3 weeks'')],
        printed = []\<rparr>)\<close>
    by simp
  from h5 have h5': \<open>fst (call_models (genai_service ?sv)
      (build_prompt ''Build a mobile app'' ''3 weeks'')) = Inr (Inr ''{"error": "quota"}'')\<close>
    by simp
  from h7 have h7': \<open>sample_loads ''{"error": "quota"}'' =
      Inr (JDict [(''error'', JStr ''quota'')])\<close>
    by (simp add: sample_services_def)
  show ?thesis by (intro conjI h1 h2 h3 h4 h5' h6 h7' h8 r)
qed

subsection \<open>C10: the result need not be an object\<close>

text \<open>
  C10: if the fence-stripped text of the response parses to a value that is not an object,
  the function returns that value as it is, and the handler of \<open>/generate\<close>, for a
  logged-in user, applies \<open>'error' not in result\<close> to it: the test raises \<open>TypeError\<close> on a
  number, a boolean or \<open>null\<close>; on a list or a string it is the element or substring test,
  after which either the value is answered as a failure would be, or \<open>result.get\<close> raises
  \<open>AttributeError\<close>. Nothing is stored in any of these cases.
\<close>

theorem non_object_result:
  assumes "py_get body ''description'' JNull = Inr desc"
    and "py_get body ''deadline'' JNull = Inr deadline"
    and "truthy desc" and "truthy deadline"
    and "fst (call_models (genai_service sv)
           (build_prompt (format_value sv desc) (format_value sv deadline))) = Inr (Inr text)"
    and "strip_fences text = Inr s"
    and "json_loads_fn sv s = Inr v"
    and "type_name v \<noteq> ''dict''"
  shows "fst (generate_gemini_timeline (genai_service sv) (json_loads_fn sv)
           (format_value sv desc) (format_value sv deadline)) = Inr v
         \<and> fst (generate sv (Some uid) body db) =
             (case py_contains ''error'' v of
                Inl e \<Rightarrow> Inl e
              | Inr True \<Rightarrow> Inr (Json 200 v)
              | Inr False \<Rightarrow>
                  Inl (Exception ([CHR 0x27] @ type_name v @ [CHR 0x27] @
                         '' object has no attribute 'get'' @ [CHR 0x27])))
         \<and> fst (snd (generate sv (Some uid) body db)) = db"
proof -
  let ?prompt = "build_prompt (format_value sv desc) (format_value sv deadline)"
  obtain tr where cm: "call_models (genai_service sv) ?prompt = (Inr (Inr text), tr)"
    using assms(5) by (cases "call_models (genai_service sv) ?prompt") simp
  from generate_on_text [OF cm assms(6)] assms(7)
  have gen: "generate_gemini_timeline (genai_service sv) (json_loads_fn sv)
      (format_value sv desc) (format_value sv deadline) = (Inr v, tr)"
    by simp
  from assms(8) have noget: "py_get v ''project_title'' (JStr ''Untitled Project'') =
      Inl (Exception ([CHR 0x27] @ type_name v @ [CHR 0x27] @
             '' object has no attribute 'get'' @ [CHR 0x27]))"
    by (cases v) simp_all
  have "save_project sv uid v db =
      (case py_contains ''error'' v of
         Inl e \<Rightarrow> Inl e
       | Inr True \<Rightarrow> Inr ()
       | Inr False \<Rightarrow>
           Inl (Exception ([CHR 0x27] @ type_name v @ [CHR 0x27] @
                  '' object has no attribute 'get'' @ [CHR 0x27])), db)"
    using noget by (simp add: save_project_def split: sum.splits bool.splits)
  with generate_with_result [OF assms(1-4) gen, of "Some uid" db] gen
  show ?thesis by (simp split: sum.splits bool.splits)
qed

theorem non_object_result_witness:
  \<open>py_get sample_request ''description'' JNull = Inr (JStr ''Build a mobile app'')
   \<and> py_get sample_request ''deadline'' JNull = Inr (JStr ''3 weeks'')
   \<and> truthy (JStr ''Build a mobile app'') \<and> truthy (JStr ''3 weeks'')
   \<and> fst (call_models
         (genai_service (sample_services (Inr (Inr ''42'')) (Inl (Exception ''unused''))))
         (build_prompt ''Build a mobile app'' ''3 weeks'')) = Inr (Inr ''42'')
   \<and> strip_fences ''42'' = Inr ''42''
   \<and> sample_loads ''42'' = Inr (JInt 42)
   \<and> type_name (JInt 42) \<noteq> ''dict''
   \<and> fst (generate_gemini_timeline
         (genai_service (sample_services (Inr (Inr ''42'')) (Inl (Exception ''unused''))))
         sample_loads ''Build a mobile app'' ''3 weeks'') = Inr (JInt 42)
   \<and> fst (generate (sample_services (Inr (Inr ''42'')) (Inl (Exception ''unused'')))
         (Some 7) sample_request []) =
       Inl (Exception ''argument of type 'int' is not iterable'')
   \<and> fst (snd (generate (sample_services (Inr (Inr ''42'')) (Inl (Exception ''unused'')))
         (Some 7) sample_request [])) = []\<close>
proof -
  let ?sv = \<open>sample_services (Inr (Inr ''42'')) (Inl (Exception ''unused''))\<close>
  have h1: "py_get sample_request ''description'' JNull = Inr (JStr ''Build a mobile app'')"
    and h2: "py_get sample_request ''deadline'' JNull = Inr (JStr ''3 weeks'')"
    by (simp_all add: sample_request_def)
  have h3: "truthy (JStr ''Build a mobile app'')" and h4: "truthy (JStr ''3 weeks'')"
    by simp_all
  have h5: \<open>fst (call_models (genai_service ?sv)
      (build_prompt (format_value ?sv (JStr ''Build a mobile app''))
         (format_value ?sv (JStr ''3 weeks'')))) = Inr (Inr ''42'')\<close>
    by (simp add: call_models_def sample_services_def scripted_service_def)
  have h6: \<open>strip_fences ''42'' = Inr ''42''\<close> by code_simp
  have h7: \<open>json_loads_fn ?sv ''42'' = Inr (JInt 42)\<close> by code_simp
  have h8: "type_name (JInt 42) \<noteq> ''dict''" by simp
  have lo: "json_loads_fn ?sv = sample_loads" by (simp add: sample_services_def)
  note c = non_object_result
    [where sv = ?sv and uid = 7 and db = "[]", OF h1 h2 h3 h4 h5 h6 h7 h8]
  from c [THEN conjunct1] lo
  have r1: \<open>fst (generate_gemini_timeline (genai_service ?sv) sample_loads
      ''Build a mobile app'' ''3 weeks'') = Inr (JInt 42)\<close>
    by simp
  from c [THEN conjunct2, THEN conjunct1]
  have r2: \<open>fst (generate ?sv (Some 7) sample_request []) =
      Inl (Exception ''argument of type 'int' is not iterable'')\<close>
    by simp
  note r3 = c [THEN conjunct2, THEN conjunct2]
  from h5 have h5': \<open>fst (call_models (genai_service ?sv)
      (build_prompt ''Build a mobile app'' ''3 weeks'')) = Inr (Inr ''42'')\<close>
    by simp
  from h7 lo have h7': \<open>sample_loads ''42'' = Inr (JInt 42)\<close> by simp
  show ?thesis by (intro conjI h1 h2 h3 h4 h5' h6 h7' h8 r1 r2 r3)
qed

end
